theory Spec2Isabelle
  imports Main
begin

section \<open>JavaScript values\<close>

text \<open>
  The values that flow through \<^verbatim>\<open>remote-server.ts\<close>: what \<^verbatim>\<open>JSON.parse\<close> produces,
  plus \<^verbatim>\<open>undefined\<close> for an absent property. An object is the list of its properties in
  enumeration order. Numbers are the integers, printed in decimal as JavaScript prints
  them below \<open>10\<^sup>2\<^sup>1\<close>; the only test the server ever makes on a number is
  whether it is zero (truthiness).
\<close>

datatype json =
    JUndefined
  | JNull
  | JBool bool
  | JNum int
  | JStr string
  | JArr "json list"
  | JObj "(string \<times> json) list"

text \<open>\<^verbatim>\<open>!!v\<close>: the falsy values are undefined, null, false, 0 and the empty string.\<close>

fun truthy :: "json \<Rightarrow> bool" where
  "truthy JUndefined = False"
| "truthy JNull = False"
| "truthy (JBool b) = b"
| "truthy (JNum n) = (n \<noteq> 0)"
| "truthy (JStr s) = (s \<noteq> [])"
| "truthy (JArr xs) = True"
| "truthy (JObj fs) = True"

text \<open>\<^verbatim>\<open>typeof v\<close>: null and arrays are of type object.\<close>

fun typeof :: "json \<Rightarrow> string" where
  "typeof JUndefined = ''undefined''"
| "typeof JNull = ''object''"
| "typeof (JBool b) = ''boolean''"
| "typeof (JNum n) = ''number''"
| "typeof (JStr s) = ''string''"
| "typeof (JArr xs) = ''object''"
| "typeof (JObj fs) = ''object''"

text \<open>
  \<^verbatim>\<open>v.k\<close> on a value that is neither undefined nor null, for the property names the
  server reads (method, params, id, name, arguments, description): an object yields the
  property or undefined; booleans, numbers, strings and arrays have no such property.
\<close>

fun get_prop :: "json \<Rightarrow> string \<Rightarrow> json" where
  "get_prop (JObj fs) k = (case map_of fs k of Some v \<Rightarrow> v | None \<Rightarrow> JUndefined)"
| "get_prop v k = JUndefined"

text \<open>\<^verbatim>\<open>v?.k\<close>: undefined when \<open>v\<close> is undefined or null.\<close>

definition opt_prop :: "json \<Rightarrow> string \<Rightarrow> json" where
  "opt_prop v k = (if v = JUndefined \<or> v = JNull then JUndefined else get_prop v k)"

text \<open>\<^verbatim>\<open>a || b\<close>.\<close>

definition js_or :: "json \<Rightarrow> json \<Rightarrow> json" where
  "js_or a b = (if truthy a then a else b)"

text \<open>\<^verbatim>\<open>k in v\<close> for an object or array \<open>v\<close>, with \<open>k\<close> not an index.\<close>

fun has_prop :: "string \<Rightarrow> json \<Rightarrow> bool" where
  "has_prop k (JObj fs) = (map_of fs k \<noteq> None)"
| "has_prop k v = False"

subsection \<open>String conversion in template literals\<close>

function show_nat :: "nat \<Rightarrow> string" where
  "show_nat n =
     (if n < 10 then [''0123456789'' ! n]
      else show_nat (n div 10) @ [''0123456789'' ! (n mod 10)])"
  by pat_completeness auto
termination
  by (relation "measure id") auto

definition show_int :: "int \<Rightarrow> string" where
  "show_int i = (if i < 0 then CHR ''-'' # show_nat (nat (- i)) else show_nat (nat i))"

fun join :: "string \<Rightarrow> string list \<Rightarrow> string" where
  "join sep [] = []"
| "join sep [s] = s"
| "join sep (s # t # ss) = s @ sep @ join sep (t # ss)"

text \<open>
  \<^verbatim>\<open>`${v}`\<close>: an array joins its elements with commas, undefined and null elements giving
  the empty string; an object prints as \<^verbatim>\<open>[object Object]\<close>.
\<close>

fun to_string :: "json \<Rightarrow> string" where
  "to_string JUndefined = ''undefined''"
| "to_string JNull = ''null''"
| "to_string (JBool b) = (if b then ''true'' else ''false'')"
| "to_string (JNum n) = show_int n"
| "to_string (JStr s) = s"
| "to_string (JArr xs) =
     join '','' (map (\<lambda>x. if x = JUndefined \<or> x = JNull then [] else to_string x) xs)"
| "to_string (JObj fs) = ''[object Object]''"

section \<open>The API client cache\<close>

text \<open>
  \<^verbatim>\<open>new SmartsheetAPI(token, baseUrl, flag)\<close>: the class lives in
  \<^verbatim>\<open>apis/smartsheet-api.ts\<close>; a handle is the triple of its constructor arguments.
\<close>

record SmartsheetAPI =
  accessToken :: string
  baseUrl :: string
  apiFlag :: bool

text \<open>
  \<^verbatim>\<open>apiInstances\<close> is a JavaScript \<^verbatim>\<open>Map\<close>, which iterates in insertion order: the list
  of its entries, oldest first.
\<close>

type_synonym api_cache = "(string \<times> SmartsheetAPI) list"

text \<open>\<^verbatim>\<open>Map.set\<close>: a present key keeps its position, a new key goes last.\<close>

fun map_set :: "string \<Rightarrow> 'v \<Rightarrow> (string \<times> 'v) list \<Rightarrow> (string \<times> 'v) list" where
  "map_set k v [] = [(k, v)]"
| "map_set k v ((k', v') # es) = (if k' = k then (k, v) # es else (k', v') # map_set k v es)"

text \<open>\<^verbatim>\<open>Map.delete\<close>.\<close>

fun map_delete :: "string \<Rightarrow> (string \<times> 'v) list \<Rightarrow> (string \<times> 'v) list" where
  "map_delete k [] = []"
| "map_delete k ((k', v') # es) = (if k' = k then es else (k', v') # map_delete k es)"

text \<open>\<^verbatim>\<open>apiEndpoint || d\<close> on an optional string: absent and empty both give \<open>d\<close>.\<close>

fun or_default :: "string option \<Rightarrow> string \<Rightarrow> string" where
  "or_default None d = d"
| "or_default (Some s) d = (if s = [] then d else s)"

definition credentialKey :: "string \<Rightarrow> string option \<Rightarrow> string" where
  "credentialKey apiKey apiEndpoint = apiKey @ '':'' @ or_default apiEndpoint ''default''"

text \<open>
  \<^verbatim>\<open>getApiInstance\<close>: look the key up; when absent, construct, insert, and if the map
  now has more than 100 entries delete its first key, provided that key is truthy.
\<close>

definition getApiInstance :: "string \<Rightarrow> string option \<Rightarrow> api_cache \<Rightarrow> SmartsheetAPI \<times> api_cache" where
  "getApiInstance apiKey apiEndpoint apiInstances =
     (let key = credentialKey apiKey apiEndpoint in
      case map_of apiInstances key of
        Some api \<Rightarrow> (api, apiInstances)
      | None \<Rightarrow>
          (let api = \<lparr>accessToken = apiKey,
                      baseUrl = or_default apiEndpoint ''https://api.smartsheet.com/2.0'',
                      apiFlag = True\<rparr>;
               inserted = map_set key api apiInstances
           in (api,
               if length inserted > 100 then
                 (case inserted of
                    [] \<Rightarrow> inserted
                  | (firstKey, first) # rest \<Rightarrow>
                      if firstKey \<noteq> [] then map_delete firstKey inserted else inserted)
               else inserted)))"

text \<open>A run of calls, each given as its pair of arguments, from the empty map of a fresh process.\<close>

definition cache_step :: "api_cache \<Rightarrow> string \<times> string option \<Rightarrow> api_cache" where
  "cache_step c call = snd (getApiInstance (fst call) (snd call) c)"

definition cache_after :: "(string \<times> string option) list \<Rightarrow> api_cache" where
  "cache_after calls = foldl cache_step [] calls"

section \<open>Requests and responses\<close>

text \<open>
  The process configuration read from the environment, with the version string of
  \<^verbatim>\<open>package.json\<close>.
\<close>

record config =
  REQUIRE_AUTH :: bool
  SECRET_KEY :: string
  version :: string

text \<open>
  A request after \<^verbatim>\<open>express.json\<close>: the parsed body, and the headers by lower-case name.
  A header that was sent with an empty value is \<open>Some []\<close>.
\<close>

record request =
  path :: string
  httpMethod :: string
  headers :: "string \<Rightarrow> string option"
  body :: json

record response =
  status :: nat
  payload :: json

text \<open>What a middleware does: it passes the request on, or answers it.\<close>

datatype gate = Next | Respond response

text \<open>Truthiness of a header value: \<^verbatim>\<open>!h\<close> holds for an absent and for an empty header.\<close>

fun provided :: "string option \<Rightarrow> bool" where
  "provided None = False"
| "provided (Some s) = (s \<noteq> [])"

definition rpc_error :: "int \<Rightarrow> string \<Rightarrow> json \<Rightarrow> json" where
  "rpc_error code message rid =
     JObj [(''jsonrpc'', JStr ''2.0''),
           (''error'', JObj [(''code'', JNum code), (''message'', JStr message)]),
           (''id'', rid)]"

definition rpc_result :: "json \<Rightarrow> json \<Rightarrow> json" where
  "rpc_result result rid =
     JObj [(''jsonrpc'', JStr ''2.0''), (''result'', result), (''id'', rid)]"

text \<open>\<^verbatim>\<open>res.json(v)\<close> answers with status 200, \<^verbatim>\<open>res.status(n).json(v)\<close> with \<open>n\<close>.\<close>

definition res_json :: "json \<Rightarrow> response" where
  "res_json v = \<lparr>status = 200, payload = v\<rparr>"

section \<open>The authentication middleware\<close>

definition authMiddleware :: "config \<Rightarrow> request \<Rightarrow> gate" where
  "authMiddleware cfg req =
     (if \<not> REQUIRE_AUTH cfg then Next
      else if SECRET_KEY cfg = [] then Next
      else if path req = ''/mcp'' \<and> httpMethod req = ''POST'' then
        (let method = opt_prop (body req) ''method'' in
         if method = JStr ''tools/call'' then
           (let providedKey = headers req ''x-secret-key'' in
            if \<not> provided providedKey then
              Respond \<lparr>status = 401,
                       payload = rpc_error (- 32001) ''Authentication required for tool execution''
                                   (opt_prop (body req) ''id'')\<rparr>
            else if providedKey \<noteq> Some (SECRET_KEY cfg) then
              Respond \<lparr>status = 401,
                       payload = rpc_error (- 32001) ''Invalid authentication for tool execution''
                                   (opt_prop (body req) ''id'')\<rparr>
            else Next)
         else Next)
      else Next)"

section \<open>Tool registration\<close>

text \<open>
  The domain-tool modules (\<^verbatim>\<open>tools/smartsheet-*-tools.ts\<close>) are parameters of the
  model. Each is a procedure that, given the API handle, calls
  \<^verbatim>\<open>server.tool(name, description, schemaOrHandler, handler?)\<close> some number of times and
  may raise. The third argument is a schema value or, in the three-argument form, the
  callback itself; a callback is named by a number.
\<close>

datatype reg_arg = Shape json | Callback nat

record ToolDescriptor =
  name :: string
  description :: string
  schemaOrHandler :: reg_arg
  handler :: "nat option"

datatype reg_step = Register ToolDescriptor | Raise string

record tool_modules =
  getDiscussionTools :: "SmartsheetAPI \<Rightarrow> reg_step list"
  getFolderTools :: "SmartsheetAPI \<Rightarrow> reg_step list"
  getSearchTools :: "SmartsheetAPI \<Rightarrow> reg_step list"
  getSheetTools :: "SmartsheetAPI \<Rightarrow> bool \<Rightarrow> reg_step list"
  getUpdateRequestTools :: "SmartsheetAPI \<Rightarrow> reg_step list"
  getUserTools :: "SmartsheetAPI \<Rightarrow> reg_step list"
  getWorkspaceTools :: "SmartsheetAPI \<Rightarrow> reg_step list"

text \<open>The seven registration calls, in the order both sweeps make them.\<close>

definition register_all :: "tool_modules \<Rightarrow> SmartsheetAPI \<Rightarrow> bool \<Rightarrow> reg_step list" where
  "register_all M api allowDeleteTools =
     getDiscussionTools M api @ getFolderTools M api @ getSearchTools M api @
     getSheetTools M api allowDeleteTools @ getUpdateRequestTools M api @
     getUserTools M api @ getWorkspaceTools M api"

subsection \<open>The recording interception of \<^verbatim>\<open>getToolDefinitions\<close>\<close>

text \<open>
  The loop over \<^verbatim>\<open>Object.entries(inputSchema)\<close>, with its two accumulators:
  \<^verbatim>\<open>properties[key] = ...\<close> is an assignment, \<^verbatim>\<open>required.push(key)\<close> appends.
\<close>

fun convert_fields ::
  "(string \<times> json) list \<Rightarrow> (string \<times> json) list \<Rightarrow> string list \<Rightarrow> (string \<times> json) list \<times> string list" where
  "convert_fields [] properties required = (properties, required)"
| "convert_fields ((key, v) # rest) properties required =
     (if truthy v \<and> typeof v = ''object'' \<and> has_prop ''description'' v then
        convert_fields rest
          (map_set key (JObj [(''type'', JStr ''string''),
                              (''description'', get_prop v ''description'')]) properties)
          (required @ [key])
      else convert_fields rest properties required)"

definition convert_schema :: "(string \<times> json) list \<Rightarrow> json" where
  "convert_schema entries =
     (case convert_fields entries [] [] of
        (properties, required) \<Rightarrow>
          JObj [(''type'', JStr ''object''),
                (''properties'', JObj properties),
                (''required'', if length required > 0 then JArr (map JStr required) else JUndefined)])"

definition empty_schema :: json where
  "empty_schema = JObj [(''type'', JStr ''object''), (''properties'', JObj [])]"

text \<open>
  The two branches on \<^verbatim>\<open>inputSchema\<close>. A plain object is converted. Anything else goes
  through \<^verbatim>\<open>Object.keys(inputSchema).length === 0\<close>: \<^verbatim>\<open>Object.keys\<close> raises a TypeError
  on undefined and null, has no key for a boolean, a number or a function, and has the
  indices as keys for a string or an array; a value with keys is kept as it is.
\<close>

fun input_schema_of :: "reg_arg \<Rightarrow> string + json" where
  "input_schema_of (Shape (JObj entries)) = Inr (convert_schema entries)"
| "input_schema_of (Shape JUndefined) = Inl ''Cannot convert undefined or null to object''"
| "input_schema_of (Shape JNull) = Inl ''Cannot convert undefined or null to object''"
| "input_schema_of (Shape (JBool b)) = Inr empty_schema"
| "input_schema_of (Shape (JNum n)) = Inr empty_schema"
| "input_schema_of (Shape (JStr s)) = Inr (if length s = 0 then empty_schema else JStr s)"
| "input_schema_of (Shape (JArr xs)) = Inr (if length xs = 0 then empty_schema else JArr xs)"
| "input_schema_of (Callback h) = Inr empty_schema"

text \<open>
  The replacement of \<^verbatim>\<open>tempServer.tool\<close>: the schema is the third argument only when a
  fourth is given, else the empty object; the definition is pushed on \<^verbatim>\<open>tools\<close>.
\<close>

definition recording_tool :: "ToolDescriptor \<Rightarrow> json list \<Rightarrow> string + json list" where
  "recording_tool d tools =
     (case input_schema_of (if handler d \<noteq> None then schemaOrHandler d else Shape (JObj [])) of
        Inl e \<Rightarrow> Inl e
      | Inr inputSchema \<Rightarrow>
          Inr (tools @ [JObj [(''name'', JStr (name d)),
                              (''description'', JStr (description d)),
                              (''inputSchema'', inputSchema)]]))"

fun record_sweep :: "reg_step list \<Rightarrow> json list \<Rightarrow> string + json list" where
  "record_sweep [] tools = Inr tools"
| "record_sweep (Raise e # rest) tools = Inl e"
| "record_sweep (Register d # rest) tools =
     (case recording_tool d tools of
        Inl e \<Rightarrow> Inl e
      | Inr tools' \<Rightarrow> record_sweep rest tools')"

definition dummyApi :: SmartsheetAPI where
  "dummyApi = \<lparr>accessToken = [], baseUrl = [], apiFlag = True\<rparr>"

definition getToolDefinitions :: "tool_modules \<Rightarrow> bool \<Rightarrow> string + json list" where
  "getToolDefinitions M allowDeleteTools =
     record_sweep (register_all M dummyApi allowDeleteTools) []"

subsection \<open>The executing interception of \<^verbatim>\<open>executeToolCall\<close>\<close>

text \<open>
  What a callback does when called with the arguments: it raises, it returns a promise
  that rejects, or it returns a value (or a promise of one). The callbacks belong to the
  modules, so their behaviour is a parameter too.
\<close>

datatype outcome = Throws string | Rejects string | Resolves json

type_synonym handlers = "nat \<Rightarrow> json \<Rightarrow> outcome"

text \<open>
  The variables of one \<^verbatim>\<open>executeToolCall\<close>: \<^verbatim>\<open>toolFound\<close>, \<^verbatim>\<open>toolResult\<close> (a settled
  promise: \<open>Inl\<close> a rejection), the exception that ended the sweep if one did, and the
  callbacks that were called, with their arguments.
\<close>

record exec_state =
  toolFound :: bool
  toolResult :: "string + json"
  raised :: "string option"
  called :: "(nat \<times> json) list"

definition executing_tool :: "handlers \<Rightarrow> json \<Rightarrow> json \<Rightarrow> ToolDescriptor \<Rightarrow> exec_state \<Rightarrow> exec_state" where
  "executing_tool H toolName toolArguments d st =
     (let actualHandler = (case handler d of Some h \<Rightarrow> Callback h | None \<Rightarrow> schemaOrHandler d) in
      if JStr (name d) = toolName then
        (case actualHandler of
           Callback h \<Rightarrow>
             (case H h toolArguments of
                Throws e \<Rightarrow>
                  st\<lparr>toolFound := True, raised := Some e,
                     called := called st @ [(h, toolArguments)]\<rparr>
              | Rejects e \<Rightarrow>
                  st\<lparr>toolFound := True, toolResult := Inl e,
                     called := called st @ [(h, toolArguments)]\<rparr>
              | Resolves v \<Rightarrow>
                  st\<lparr>toolFound := True, toolResult := Inr v,
                     called := called st @ [(h, toolArguments)]\<rparr>)
         | Shape v \<Rightarrow> st\<lparr>toolFound := True, raised := Some ''actualHandler is not a function''\<rparr>)
      else st)"

fun exec_sweep :: "handlers \<Rightarrow> json \<Rightarrow> json \<Rightarrow> reg_step list \<Rightarrow> exec_state \<Rightarrow> exec_state" where
  "exec_sweep H toolName toolArguments [] st = st"
| "exec_sweep H toolName toolArguments (Raise e # rest) st = st\<lparr>raised := Some e\<rparr>"
| "exec_sweep H toolName toolArguments (Register d # rest) st =
     (let st' = executing_tool H toolName toolArguments d st in
      if raised st' \<noteq> None then st' else exec_sweep H toolName toolArguments rest st')"

text \<open>
  The state of the process: the client cache, and the log of every callback invocation
  made so far (callbacks reach the Smartsheet service, so calling one is an effect).
\<close>

record server_state =
  apiInstances :: api_cache
  invoked :: "(nat \<times> json) list"

definition executeToolCall ::
  "tool_modules \<Rightarrow> handlers \<Rightarrow> string \<Rightarrow> string option \<Rightarrow> bool \<Rightarrow> json \<Rightarrow> json \<Rightarrow> server_state
     \<Rightarrow> (string + json) \<times> server_state" where
  "executeToolCall M H apiKey apiEndpoint allowDeleteTools toolName toolArguments s =
     (case getApiInstance apiKey apiEndpoint (apiInstances s) of
        (api, cache) \<Rightarrow>
          (let st = exec_sweep H toolName toolArguments (register_all M api allowDeleteTools)
                      \<lparr>toolFound = False, toolResult = Inr JNull, raised = None, called = []\<rparr>;
               s' = \<lparr>apiInstances = cache, invoked = invoked s @ called st\<rparr>
           in (case raised st of
                 Some e \<Rightarrow> Inl e
               | None \<Rightarrow>
                   if \<not> toolFound st then Inl (''Tool not found: '' @ to_string toolName)
                   else toolResult st,
               s')))"

section \<open>The JSON-RPC endpoint\<close>

definition initialize_result :: "config \<Rightarrow> json" where
  "initialize_result cfg =
     JObj [(''protocolVersion'', JStr ''2024-11-05''),
           (''capabilities'', JObj [(''tools'', JObj []), (''prompts'', JNull), (''resources'', JNull)]),
           (''serverInfo'', JObj [(''name'', JStr ''smartsheet''), (''version'', JStr (version cfg))])]"

text \<open>
  The handler of \<^verbatim>\<open>app.post('/mcp')\<close>. The only statement of its outer \<^verbatim>\<open>try\<close> block that
  can raise outside the inner \<^verbatim>\<open>try\<close> is the call of \<^verbatim>\<open>getToolDefinitions\<close>; the outer
  \<^verbatim>\<open>catch\<close> answers with \<^verbatim>\<open>req.body?.id || null\<close>.
\<close>

definition mcp_handler ::
  "config \<Rightarrow> tool_modules \<Rightarrow> handlers \<Rightarrow> request \<Rightarrow> server_state \<Rightarrow> response \<times> server_state" where
  "mcp_handler cfg M H req s =
     (if \<not> truthy (body req) \<or> typeof (body req) \<noteq> ''object'' then
        (res_json (rpc_error (- 32700) ''Parse error: Invalid JSON'' JNull), s)
      else
        (let method = get_prop (body req) ''method'';
             params = js_or (get_prop (body req) ''params'') (JObj []);
             requestId = get_prop (body req) ''id''
         in
         if method = JStr ''initialize'' then
           (res_json (rpc_result (initialize_result cfg) requestId), s)
         else if method = JStr ''tools/list'' then
           (let allowDeleteTools = (headers req ''x-allow-delete-tools'' = Some ''true'') in
            case getToolDefinitions M allowDeleteTools of
              Inr tools \<Rightarrow> (res_json (rpc_result (JObj [(''tools'', JArr tools)]) requestId), s)
            | Inl e \<Rightarrow>
                (res_json (rpc_error (- 32603) (''Internal error: '' @ e)
                             (js_or (opt_prop (body req) ''id'') JNull)), s))
         else if method = JStr ''tools/call'' then
           (let apiKey = headers req ''x-smartsheet-api-key'';
                apiEndpoint = headers req ''x-smartsheet-endpoint'';
                allowDeleteTools = (headers req ''x-allow-delete-tools'' = Some ''true'')
            in
            case apiKey of
              None \<Rightarrow>
                (res_json (rpc_error (- 32602) ''Missing required header: x-smartsheet-api-key''
                             requestId), s)
            | Some k \<Rightarrow>
                if k = [] then
                  (res_json (rpc_error (- 32602) ''Missing required header: x-smartsheet-api-key''
                               requestId), s)
                else
                  (let toolName = get_prop params ''name'';
                       toolArguments = js_or (get_prop params ''arguments'') (JObj [])
                   in
                   case executeToolCall M H k apiEndpoint allowDeleteTools toolName toolArguments s of
                     (Inr result, s') \<Rightarrow> (res_json (rpc_result result requestId), s')
                   | (Inl e, s') \<Rightarrow>
                       (res_json (rpc_error (- 32603) (''Tool execution error: '' @ e) requestId), s')))
         else
           (res_json (rpc_error (- 32601) (''Method not found: '' @ to_string method) requestId), s)))"

text \<open>
  A \<^verbatim>\<open>POST /mcp\<close> request runs through \<^verbatim>\<open>authMiddleware\<close> and then, unless the
  middleware has answered, through the handler.
\<close>

definition mcp_request :: "(string \<Rightarrow> string option) \<Rightarrow> json \<Rightarrow> request" where
  "mcp_request hs b = \<lparr>path = ''/mcp'', httpMethod = ''POST'', headers = hs, body = b\<rparr>"

definition post_mcp ::
  "config \<Rightarrow> tool_modules \<Rightarrow> handlers \<Rightarrow> request \<Rightarrow> server_state \<Rightarrow> response \<times> server_state" where
  "post_mcp cfg M H req s =
     (case authMiddleware cfg req of
        Respond r \<Rightarrow> (r, s)
      | Next \<Rightarrow> mcp_handler cfg M H req s)"

text \<open>A fresh process, and a run of \<^verbatim>\<open>POST /mcp\<close> requests served one after the other.\<close>

definition initial_state :: server_state where
  "initial_state = \<lparr>apiInstances = [], invoked = []\<rparr>"

definition serve_all ::
  "config \<Rightarrow> tool_modules \<Rightarrow> handlers \<Rightarrow> request list \<Rightarrow> server_state \<Rightarrow> server_state" where
  "serve_all cfg M H reqs s = foldl (\<lambda>s' req. snd (post_mcp cfg M H req s')) s reqs"

section \<open>Notions used to state the properties\<close>

subsection \<open>Cache\<close>

text \<open>The handle \<^verbatim>\<open>getApiInstance\<close> constructs on a miss, and the entry it inserts.\<close>

definition new_api :: "string \<Rightarrow> string option \<Rightarrow> SmartsheetAPI" where
  "new_api a e =
     \<lparr>accessToken = a, baseUrl = or_default e ''https://api.smartsheet.com/2.0'', apiFlag = True\<rparr>"

definition call_key :: "string \<times> string option \<Rightarrow> string" where
  "call_key call = credentialKey (fst call) (snd call)"

definition entry :: "string \<times> string option \<Rightarrow> string \<times> SmartsheetAPI" where
  "entry call = (call_key call, new_api (fst call) (snd call))"

text \<open>The invariant of the cache: at most 100 entries, no empty key, no key twice.\<close>

definition cache_inv :: "api_cache \<Rightarrow> bool" where
  "cache_inv c = (length c \<le> 100 \<and> [] \<notin> fst ` set c \<and> distinct (map fst c))"

text \<open>
  An access sequence: key A is used first, then B once, then A twice more; 98 further
  API keys \<open>x\<close>, \<open>xx\<close>, \<open>xxx\<close>, ... fill the cache to its capacity, and one more key Z
  forces an eviction.
\<close>

definition fillers :: "nat \<Rightarrow> (string \<times> string option) list" where
  "fillers n = map (\<lambda>i. (replicate (Suc i) CHR ''x'', None)) [0..<n]"

definition fifo_trace :: "(string \<times> string option) list" where
  "fifo_trace =
     [(''A'', None), (''B'', None), (''A'', None), (''A'', None)] @ fillers 98 @ [(''Z'', None)]"

subsection \<open>Registration sweeps\<close>

text \<open>The descriptors a sweep registers before it ends or raises.\<close>

fun registered :: "reg_step list \<Rightarrow> ToolDescriptor list" where
  "registered [] = []"
| "registered (Raise e # rest) = []"
| "registered (Register d # rest) = d # registered rest"





subsection \<open>Sample configurations\<close>

definition cfg0 :: config where
  "cfg0 = \<lparr>REQUIRE_AUTH = True, SECRET_KEY = ''s3cret'', version = ''1.0.0''\<rparr>"

definition open_cfg :: config where
  "open_cfg = \<lparr>REQUIRE_AUTH = False, SECRET_KEY = [], version = ''1.0.0''\<rparr>"

definition no_tools :: tool_modules where
  "no_tools = \<lparr>getDiscussionTools = (\<lambda>api. []), getFolderTools = (\<lambda>api. []),
                getSearchTools = (\<lambda>api. []), getSheetTools = (\<lambda>api allow. []),
                getUpdateRequestTools = (\<lambda>api. []), getUserTools = (\<lambda>api. []),
                getWorkspaceTools = (\<lambda>api. [])\<rparr>"

text \<open>Modules of which the first raises while it registers.\<close>

definition failing_modules :: tool_modules where
  "failing_modules = no_tools\<lparr>getDiscussionTools := (\<lambda>api. [Raise ''registration failed''])\<rparr>"

text \<open>Modules that register one tool, with a described and an undescribed schema field.\<close>

definition sheet_tool :: ToolDescriptor where
  "sheet_tool =
     \<lparr>name = ''get_sheet'', description = ''Retrieve a sheet'',
      schemaOrHandler = Shape (JObj [(''sheetId'', JObj [(''description'', JStr ''The sheet id'')]),
                                     (''pageSize'', JObj [(''minimum'', JNum 1)])]),
      handler = Some 0\<rparr>"

definition sheet_modules :: tool_modules where
  "sheet_modules = no_tools\<lparr>getSheetTools := (\<lambda>api allow. [Register sheet_tool])\<rparr>"

definition H0 :: handlers where
  "H0 h args = Resolves JNull"

definition list_request :: json where
  "list_request = JObj [(''jsonrpc'', JStr ''2.0''), (''method'', JStr ''tools/list''), (''id'', JNum 0)]"


section \<open>The cache: bound and eviction order\<close>

lemma map_set_absent: "map_of c k = None \<Longrightarrow> map_set k v c = c @ [(k, v)]"
  by (induction c) (auto split: if_splits)


lemma map_of_snoc_fresh: "k \<notin> fst ` set xs \<Longrightarrow> map_of (xs @ [(k, v)]) k = Some v"
  by (induction xs) auto

lemma credentialKey_nonempty: "credentialKey a e \<noteq> []"
  by (simp add: credentialKey_def)

lemma call_key_nonempty: "call_key x \<noteq> []"
  by (simp add: call_key_def credentialKey_def)

lemma fst_entry: "fst (entry x) = call_key x"
  by (simp add: entry_def)

lemma keys_entries: "fst ` set (map entry cs) = call_key ` set cs"
  by (auto simp: entry_def image_iff)

lemma getApiInstance_hit:
  "map_of c (credentialKey a e) = Some h \<Longrightarrow> getApiInstance a e c = (h, c)"
  by (simp add: getApiInstance_def)

text \<open>On a miss the new entry goes last; what follows is the capacity check as the code makes it.\<close>

lemma getApiInstance_absent:
  assumes "map_of c (credentialKey a e) = None"
  shows "getApiInstance a e c =
      (new_api a e,
       if length (c @ [(credentialKey a e, new_api a e)]) > 100 then
         (case c @ [(credentialKey a e, new_api a e)] of
            [] \<Rightarrow> c @ [(credentialKey a e, new_api a e)]
          | (firstKey, first) # rest \<Rightarrow>
              if firstKey \<noteq> [] then map_delete firstKey (c @ [(credentialKey a e, new_api a e)])
              else c @ [(credentialKey a e, new_api a e)])
       else c @ [(credentialKey a e, new_api a e)])"
  unfolding getApiInstance_def Let_def new_api_def map_set_absent[OF assms] using assms by simp

text \<open>With no empty key in the map, the deleted entry is the head of the list.\<close>

lemma getApiInstance_miss:
  assumes "map_of c (credentialKey a e) = None" and "[] \<notin> fst ` set c"
  shows "getApiInstance a e c =
     (new_api a e, (if length c < 100 then c else tl c) @ [(credentialKey a e, new_api a e)])"
proof (cases c)
  case Nil
  then show ?thesis using getApiInstance_absent[OF assms(1)] by simp
next
  case (Cons p rest)
  obtain k v where p: "p = (k, v)" by (cases p)
  with Cons assms(2) have "k \<noteq> []" by auto
  then show ?thesis using getApiInstance_absent[OF assms(1)] unfolding Cons p by simp
qed

lemma cache_step_fresh:
  assumes "call_key x \<notin> fst ` set c" and "[] \<notin> fst ` set c"
  shows "cache_step c x = (if length c < 100 then c else tl c) @ [entry x]"
proof -
  have "map_of c (credentialKey (fst x) (snd x)) = None"
    using assms(1) by (simp add: map_of_eq_None_iff call_key_def)
  from getApiInstance_miss[OF this assms(2)] show ?thesis
    by (simp add: cache_step_def entry_def call_key_def)
qed

lemma cache_step_inv: "cache_inv c \<Longrightarrow> cache_inv (cache_step c call)"
proof -
  assume inv: "cache_inv c"
  show ?thesis
  proof (cases "map_of c (call_key call)")
    case (Some h)
    then show ?thesis
      using inv by (simp add: cache_step_def call_key_def getApiInstance_hit)
  next
    case None
    then have notin: "call_key call \<notin> fst ` set c" by (simp add: map_of_eq_None_iff)
    have ne: "[] \<notin> fst ` set c" using inv by (simp add: cache_inv_def)
    show ?thesis
      unfolding cache_step_fresh[OF notin ne]
      using inv notin call_key_nonempty[of call]
      by (cases c) (auto simp: cache_inv_def fst_entry)
  qed
qed

lemma cache_after_inv: "cache_inv (cache_after calls)"
proof -
  have "cache_inv c \<Longrightarrow> cache_inv (foldl cache_step c calls)" for c
    by (induction calls arbitrary: c) (auto simp: cache_step_inv)
  then show ?thesis by (simp add: cache_after_def cache_inv_def)
qed

text \<open>Every request leaves the cache as it was or makes one \<^verbatim>\<open>getApiInstance\<close> call.\<close>

lemma executeToolCall_cache:
  "apiInstances (snd (executeToolCall M H k e allow tn ta s)) = cache_step (apiInstances s) (k, e)"
  by (simp add: executeToolCall_def cache_step_def Let_def split: prod.splits)

lemma mcp_handler_cache:
  "apiInstances (snd (mcp_handler cfg M H req s)) = apiInstances s \<or>
   (\<exists>call. apiInstances (snd (mcp_handler cfg M H req s)) = cache_step (apiInstances s) call)"
proof -
  have exec: "\<And>k e allow tn ta r s'. executeToolCall M H k e allow tn ta s = (r, s') \<Longrightarrow>
      apiInstances s' = cache_step (apiInstances s) (k, e)"
    using executeToolCall_cache by (metis snd_conv)
  show ?thesis
    unfolding mcp_handler_def Let_def
    by (auto split: sum.splits option.splits prod.splits dest: exec)
qed

lemma post_mcp_cache:
  "apiInstances (snd (post_mcp cfg M H req s)) = apiInstances s \<or>
   (\<exists>call. apiInstances (snd (post_mcp cfg M H req s)) = cache_step (apiInstances s) call)"
  using mcp_handler_cache[of cfg M H req s]
  by (cases "authMiddleware cfg req") (auto simp: post_mcp_def)

lemma post_mcp_inv:
  "cache_inv (apiInstances s) \<Longrightarrow> cache_inv (apiInstances (snd (post_mcp cfg M H req s)))"
  using post_mcp_cache[of cfg M H req s] cache_step_inv by auto

lemma serve_all_inv:
  "cache_inv (apiInstances s) \<Longrightarrow> cache_inv (apiInstances (serve_all cfg M H reqs s))"
  unfolding serve_all_def
  by (induction reqs arbitrary: s) (auto simp: post_mcp_inv)

text \<open>
  Claim C2. After any sequence of \<^verbatim>\<open>getApiInstance\<close> calls, with arbitrary API keys and
  endpoints, started on the empty cache, the cache holds at most 100 entries, and their
  keys are pairwise distinct. The same bound holds after any sequence of
  \<^verbatim>\<open>POST /mcp\<close> requests (of any method, under any configuration, modules and callbacks)
  served by a fresh process.
\<close>

theorem C2_cache_bounded:
  "length (cache_after calls) \<le> 100 \<and> distinct (map fst (cache_after calls)) \<and>
   length (apiInstances (serve_all cfg M H reqs initial_state)) \<le> 100"
proof -
  have "cache_inv (apiInstances initial_state)"
    by (simp add: initial_state_def cache_inv_def)
  then have "cache_inv (apiInstances (serve_all cfg M H reqs initial_state))"
    by (rule serve_all_inv)
  then show ?thesis using cache_after_inv[of calls] by (simp add: cache_inv_def)
qed

subsection \<open>Insertion order\<close>

lemma cache_after_lookup:
  "getApiInstance a e (cache_after calls) =
     (case map_of (cache_after calls) (credentialKey a e) of
        Some api \<Rightarrow> (api, cache_after calls)
      | None \<Rightarrow>
          (new_api a e,
           (if length (cache_after calls) < 100 then cache_after calls else tl (cache_after calls))
           @ [(credentialKey a e, new_api a e)]))"
proof (cases "map_of (cache_after calls) (credentialKey a e)")
  case None
  have "[] \<notin> fst ` set (cache_after calls)"
    using cache_after_inv[of calls] by (simp add: cache_inv_def)
  from getApiInstance_miss[OF None this] show ?thesis
    using None by simp
next
  case (Some h)
  then show ?thesis by (simp add: getApiInstance_hit)
qed

text \<open>Calls with fresh, pairwise distinct keys append their entries while there is room.\<close>

lemma fill_fresh:
  "[] \<notin> fst ` set c \<Longrightarrow> distinct (map call_key cs) \<Longrightarrow>
   call_key ` set cs \<inter> fst ` set c = {} \<Longrightarrow> length c + length cs \<le> 100 \<Longrightarrow>
   foldl cache_step c cs = c @ map entry cs"
proof (induction cs arbitrary: c)
  case Nil
  then show ?case by simp
next
  case (Cons x cs)
  have step: "cache_step c x = c @ [entry x]"
    using cache_step_fresh[of x c] Cons.prems by auto
  have "foldl cache_step (c @ [entry x]) cs = (c @ [entry x]) @ map entry cs"
  proof (rule Cons.IH)
    show "[] \<notin> fst ` set (c @ [entry x])"
      using Cons.prems(1) call_key_nonempty[of x] by (auto simp: fst_entry)
    show "distinct (map call_key cs)" using Cons.prems(2) by simp
    show "call_key ` set cs \<inter> fst ` set (c @ [entry x]) = {}"
      using Cons.prems(2,3) by (auto simp: fst_entry)
    show "length (c @ [entry x]) + length cs \<le> 100" using Cons.prems(4) by simp
  qed
  then show ?case by (simp add: step)
qed

lemma fillers_keys:
  "map call_key (fillers n) = map (\<lambda>i. replicate (Suc i) CHR ''x'' @ '':default'') [0..<n]"
  by (simp add: fillers_def call_key_def credentialKey_def comp_def)

lemma fillers_distinct: "distinct (map call_key (fillers n))"
proof -
  have "inj (\<lambda>i. replicate (Suc i) CHR ''x'' @ '':default'')"
  proof (rule injI)
    fix i j
    assume "replicate (Suc i) CHR ''x'' @ '':default'' = replicate (Suc j) CHR ''x'' @ '':default''"
    then have "length (replicate (Suc i) CHR ''x'' @ '':default'') =
               length (replicate (Suc j) CHR ''x'' @ '':default'')"
      by (rule arg_cong)
    then show "i = j" by simp
  qed
  then show ?thesis
    unfolding fillers_keys by (simp add: distinct_map inj_on_def)
qed

lemma fillers_other:
  "''A:default'' \<notin> call_key ` set (fillers n)"
  "''B:default'' \<notin> call_key ` set (fillers n)"
  "''Z:default'' \<notin> call_key ` set (fillers n)"
  "[] \<notin> call_key ` set (fillers n)"
  by (auto simp: fillers_def call_key_def credentialKey_def)

lemma fillers_calls:
  "(''A'', None) \<notin> set (fillers n)" "(''B'', None) \<notin> set (fillers n)"
  by (auto simp: fillers_def)

lemma length_fillers: "length (fillers n) = n"
  by (simp add: fillers_def)

lemma call_key_A: "call_key (''A'', None) = ''A:default''"
  and call_key_B: "call_key (''B'', None) = ''B:default''"
  and call_key_Z: "call_key (''Z'', None) = ''Z:default''"
  by (simp_all add: call_key_def credentialKey_def)

lemma first_four:
  "foldl cache_step [] [(''A'', None), (''B'', None), (''A'', None), (''A'', None)] =
     [entry (''A'', None), entry (''B'', None)]"
  by (simp add: cache_step_def getApiInstance_def credentialKey_def entry_def call_key_def
      new_api_def Let_def)

lemma fifo_prefix:
  "cache_after ([(''A'', None), (''B'', None), (''A'', None), (''A'', None)] @ fillers 98) =
     entry (''A'', None) # entry (''B'', None) # map entry (fillers 98)"
proof -
  have "foldl cache_step [entry (''A'', None), entry (''B'', None)] (fillers 98) =
        [entry (''A'', None), entry (''B'', None)] @ map entry (fillers 98)"
  proof (rule fill_fresh)
    show "[] \<notin> fst ` set [entry (''A'', None), entry (''B'', None)]"
      by (simp add: fst_entry call_key_A call_key_B)
    show "distinct (map call_key (fillers 98))" by (rule fillers_distinct)
    show "call_key ` set (fillers 98) \<inter> fst ` set [entry (''A'', None), entry (''B'', None)] = {}"
      using fillers_other[of 98] by (simp add: fst_entry call_key_A call_key_B)
    show "length [entry (''A'', None), entry (''B'', None)] + length (fillers 98) \<le> 100"
      by (simp add: length_fillers)
  qed
  then show ?thesis
    unfolding cache_after_def foldl_append first_four by simp
qed

text \<open>After the whole sequence the oldest key, A, is gone; B is now the oldest.\<close>

lemma fifo_trace_keys:
  "map fst (cache_after fifo_trace) = ''B:default'' # map call_key (fillers 98) @ [''Z:default'']"
proof -
  let ?c = "entry (''A'', None) # entry (''B'', None) # map entry (fillers 98)"
  have keys: "fst ` set ?c = {''A:default'', ''B:default''} \<union> call_key ` set (fillers 98)"
    using keys_entries[of "fillers 98"] by (simp add: fst_entry call_key_A call_key_B)
  have fresh: "call_key (''Z'', None) \<notin> fst ` set ?c"
    unfolding keys call_key_Z using fillers_other[of 98] by simp
  have ne: "[] \<notin> fst ` set ?c"
    unfolding keys using fillers_other[of 98] by simp
  have len: "length ?c = 100" by (simp add: length_fillers)
  have "cache_step ?c (''Z'', None) = tl ?c @ [entry (''Z'', None)]"
    using cache_step_fresh[OF fresh ne] len by simp
  then have "cache_after (([(''A'', None), (''B'', None), (''A'', None), (''A'', None)] @ fillers 98)
                @ [(''Z'', None)]) = tl ?c @ [entry (''Z'', None)]"
    unfolding cache_after_def foldl_append using fifo_prefix[unfolded cache_after_def] by simp
  then show ?thesis
    by (simp add: fifo_trace_def fst_entry call_key_B call_key_Z comp_def)
qed

lemma fifo_trace_counts:
  "take 2 fifo_trace = [(''A'', None), (''B'', None)]"
  "count_list fifo_trace (''A'', None) = 3"
  "count_list fifo_trace (''B'', None) = 1"
  using fillers_calls[of 98] by (simp_all add: fifo_trace_def count_list_0_iff)

lemma fifo_trace_cache:
  "map_of (cache_after fifo_trace) (credentialKey ''A'' None) = None"
  "map_of (cache_after fifo_trace) (credentialKey ''B'' None) \<noteq> None"
proof -
  have keys: "fst ` set (cache_after fifo_trace) =
      {''B:default'', ''Z:default''} \<union> call_key ` set (fillers 98)"
    using arg_cong[OF fifo_trace_keys, of set] by auto
  show "map_of (cache_after fifo_trace) (credentialKey ''A'' None) = None"
    unfolding map_of_eq_None_iff keys using fillers_other[of 98] by (simp add: credentialKey_def)
  show "map_of (cache_after fifo_trace) (credentialKey ''B'' None) \<noteq> None"
    unfolding map_of_eq_None_iff keys by (simp add: credentialKey_def)
qed

text \<open>
  Claim C3. Eviction follows insertion order. In every cache state a process can reach,
  a call whose key is present returns the cached handle and leaves the cache, order
  included, as it was; a call whose key is absent puts the new entry last and, when the
  cache was full (100 entries), drops the first, that is the oldest inserted, entry.
  Access does not refresh an entry: in the sequence \<open>fifo_trace\<close> key A is inserted
  first and used three times, key B is inserted after it and used once, and at the end
  A has been evicted while B is still cached.
\<close>

theorem C3_fifo_eviction:
  "getApiInstance a e (cache_after calls) =
     (case map_of (cache_after calls) (credentialKey a e) of
        Some api \<Rightarrow> (api, cache_after calls)
      | None \<Rightarrow>
          (new_api a e,
           (if length (cache_after calls) < 100 then cache_after calls else tl (cache_after calls))
           @ [(credentialKey a e, new_api a e)]))
   \<and> take 2 fifo_trace = [(''A'', None), (''B'', None)]
   \<and> count_list fifo_trace (''A'', None) = 3
   \<and> count_list fifo_trace (''B'', None) = 1
   \<and> map_of (cache_after fifo_trace) (credentialKey ''A'' None) = None
   \<and> map_of (cache_after fifo_trace) (credentialKey ''B'' None) \<noteq> None"
  using cache_after_lookup fifo_trace_counts fifo_trace_cache by simp

subsection \<open>The credential key\<close>

lemma same_key_same_handle:
  assumes "credentialKey a2 e2 = credentialKey a1 e1"
  shows "getApiInstance a2 e2 (snd (getApiInstance a1 e1 c)) = getApiInstance a1 e1 c"
proof (cases "map_of c (credentialKey a1 e1)")
  case (Some h)
  then show ?thesis using assms by (simp add: getApiInstance_hit)
next
  case None
  let ?key = "credentialKey a1 e1"
  let ?api = "new_api a1 e1"
  have notin: "?key \<notin> fst ` set c" using None by (simp add: map_of_eq_None_iff)
  define c1 where "c1 = snd (getApiInstance a1 e1 c)"
  note absent = getApiInstance_absent[OF None]
  have first: "getApiInstance a1 e1 c = (?api, c1)"
    unfolding c1_def absent by simp
  have "c1 = c @ [(?key, ?api)] \<or> (\<exists>p rest. c = p # rest \<and> c1 = rest @ [(?key, ?api)])"
  proof (cases c)
    case Nil
    then show ?thesis unfolding c1_def absent by simp
  next
    case (Cons p rest)
    obtain fk v where p: "p = (fk, v)" by (cases p)
    show ?thesis using absent unfolding c1_def Cons p by auto
  qed
  then have "map_of c1 ?key = Some ?api"
  proof
    assume "c1 = c @ [(?key, ?api)]"
    then show ?thesis using map_of_snoc_fresh[OF notin, of ?api] by simp
  next
    assume "\<exists>p rest. c = p # rest \<and> c1 = rest @ [(?key, ?api)]"
    then obtain p rest where c: "c = p # rest" and c1: "c1 = rest @ [(?key, ?api)]" by blast
    have "?key \<notin> fst ` set rest" using notin c by simp
    then show ?thesis using map_of_snoc_fresh[of ?key rest ?api] c1 by simp
  qed
  then have "getApiInstance a2 e2 c1 = (?api, c1)"
    using assms by (simp add: getApiInstance_hit)
  then have "getApiInstance a2 e2 c1 = getApiInstance a1 e1 c" using first by simp
  then show ?thesis unfolding c1_def .
qed

text \<open>
  Claim C10. The key under which \<^verbatim>\<open>getApiInstance\<close> caches a handle is the API key,
  a colon, and the endpoint, or the word default when the endpoint is absent or empty.
  The derivation is not injective: the distinct pairs (\<open>a:b\<close>, no endpoint) and
  (\<open>a\<close>, endpoint \<open>b:default\<close>) have the same key, so in any cache state a call for
  the second pair right after a call for the first returns the very handle the first call
  returned, and on a fresh cache that handle carries the first pair's API key.
\<close>

theorem C10_key_not_injective:
  "credentialKey a e =
     a @ '':'' @ (case e of None \<Rightarrow> ''default'' | Some s \<Rightarrow> if s = [] then ''default'' else s)
   \<and> map fst (snd (getApiInstance a e [])) = [credentialKey a e]
   \<and> (''a:b'', None) \<noteq> (''a'', Some ''b:default'')
   \<and> credentialKey ''a:b'' None = credentialKey ''a'' (Some ''b:default'')
   \<and> getApiInstance ''a'' (Some ''b:default'') (snd (getApiInstance ''a:b'' None c)) =
       getApiInstance ''a:b'' None c
   \<and> accessToken (fst (getApiInstance ''a'' (Some ''b:default'')
                          (snd (getApiInstance ''a:b'' None [])))) = ''a:b''"
proof -
  have k: "credentialKey ''a'' (Some ''b:default'') = credentialKey ''a:b'' None"
    by (simp add: credentialKey_def)
  have g: "getApiInstance ''a'' (Some ''b:default'') (snd (getApiInstance ''a:b'' None c)) =
           getApiInstance ''a:b'' None c" for c
    using k by (rule same_key_same_handle)
  have "accessToken (fst (getApiInstance ''a:b'' None [])) = ''a:b''"
    by (simp add: getApiInstance_def Let_def)
  then show ?thesis using k g
    by (cases e) (simp_all add: credentialKey_def getApiInstance_def Let_def)
qed

section \<open>The authentication gate\<close>

lemma get_prop_str_obj: "get_prop b k = JStr m \<Longrightarrow> \<exists>fs. b = JObj fs"
  by (cases b) auto

text \<open>
  Claim C1, as amended. For a \<^verbatim>\<open>POST /mcp\<close> request whose body has method
  \<^verbatim>\<open>tools/call\<close>, the decision of the gate depends on \<^verbatim>\<open>REQUIRE_AUTH\<close>,
  \<^verbatim>\<open>SECRET_KEY\<close> and the \<^verbatim>\<open>x-secret-key\<close> header only (the answer echoes the request id):
  it lets the request pass when authentication is not required or the secret is empty;
  otherwise it answers 401 with error -32001 and the message "Authentication required for
  tool execution" when the header is missing or empty, 401 with error -32001 and the
  message "Invalid authentication for tool execution" when the header is non-empty and
  differs from the secret, and lets the request pass when the header equals the secret.
\<close>

theorem C1_auth_gate:
  assumes "get_prop b ''method'' = JStr ''tools/call''"
  shows "authMiddleware cfg (mcp_request hs b) =
     (if \<not> REQUIRE_AUTH cfg \<or> SECRET_KEY cfg = [] then Next
      else case hs ''x-secret-key'' of
        None \<Rightarrow>
          Respond \<lparr>status = 401,
                   payload = rpc_error (- 32001) ''Authentication required for tool execution''
                               (get_prop b ''id'')\<rparr>
      | Some k \<Rightarrow>
          if k = [] then
            Respond \<lparr>status = 401,
                     payload = rpc_error (- 32001) ''Authentication required for tool execution''
                                 (get_prop b ''id'')\<rparr>
          else if k \<noteq> SECRET_KEY cfg then
            Respond \<lparr>status = 401,
                     payload = rpc_error (- 32001) ''Invalid authentication for tool execution''
                                 (get_prop b ''id'')\<rparr>
          else Next)"
proof -
  from assms obtain fs where b: "b = JObj fs" by (auto dest: get_prop_str_obj)
  show ?thesis
    using assms unfolding b authMiddleware_def mcp_request_def
    by (cases "hs ''x-secret-key''") (simp_all add: Let_def opt_prop_def)
qed

text \<open>The theorem at a request that carries a wrong, non-empty secret.\<close>

theorem C1_witness:
  "authMiddleware cfg0 (mcp_request [''x-secret-key'' \<mapsto> ''wrong'']
       (JObj [(''method'', JStr ''tools/call''), (''id'', JNum 7)])) =
   Respond \<lparr>status = 401,
            payload = rpc_error (- 32001) ''Invalid authentication for tool execution'' (JNum 7)\<rparr>"
  using C1_auth_gate[of "JObj [(''method'', JStr ''tools/call''), (''id'', JNum 7)]" cfg0
      "[''x-secret-key'' \<mapsto> ''wrong'']"]
  by (simp add: cfg0_def)

text \<open>
  The claim as it was written fails for a header that is present but empty: it differs
  from the secret, and the answer is "Authentication required", not "Invalid
  authentication".
\<close>

theorem C1_counterexample:
  "[''x-secret-key'' \<mapsto> []] ''x-secret-key'' = Some [] \<and> [] \<noteq> SECRET_KEY cfg0 \<and>
   authMiddleware cfg0 (mcp_request [''x-secret-key'' \<mapsto> []]
       (JObj [(''method'', JStr ''tools/call''), (''id'', JNum 7)])) =
     Respond \<lparr>status = 401,
              payload = rpc_error (- 32001) ''Authentication required for tool execution'' (JNum 7)\<rparr>
   \<and> authMiddleware cfg0 (mcp_request [''x-secret-key'' \<mapsto> []]
       (JObj [(''method'', JStr ''tools/call''), (''id'', JNum 7)])) \<noteq>
     Respond \<lparr>status = 401,
              payload = rpc_error (- 32001) ''Invalid authentication for tool execution'' (JNum 7)\<rparr>"
  by (simp add: authMiddleware_def mcp_request_def cfg0_def opt_prop_def rpc_error_def)

section \<open>The router\<close>

text \<open>
  Outside the outer \<^verbatim>\<open>catch\<close>, that is unless the method is \<^verbatim>\<open>tools/list\<close> and the
  extraction raises, every answer to a body that passes the object check carries the
  request's id as it was given, an absent id staying absent.
\<close>

lemma id_echoed_unless_extraction_fails:
  assumes "truthy b" and "typeof b = ''object''"
    and "get_prop b ''method'' = JStr ''tools/list'' \<longrightarrow>
         (\<exists>tools. getToolDefinitions M (hs ''x-allow-delete-tools'' = Some ''true'') = Inr tools)"
  shows "get_prop (payload (fst (post_mcp cfg M H (mcp_request hs b) s))) ''id'' = get_prop b ''id''"
proof -
  have nn: "b \<noteq> JUndefined" "b \<noteq> JNull" using assms(1) by auto
  have auth: "authMiddleware cfg (mcp_request hs b) = Next \<or>
        (\<exists>m. authMiddleware cfg (mcp_request hs b) =
              Respond \<lparr>status = 401, payload = rpc_error (- 32001) m (get_prop b ''id'')\<rparr>)"
    using nn by (auto simp: authMiddleware_def mcp_request_def opt_prop_def Let_def)
  have handler: "get_prop (payload (fst (mcp_handler cfg M H (mcp_request hs b) s))) ''id'' =
                 get_prop b ''id''"
    using assms unfolding mcp_handler_def mcp_request_def Let_def
    by (auto simp: res_json_def rpc_error_def rpc_result_def
        split: sum.splits option.splits prod.splits)
  from auth show ?thesis
  proof
    assume "authMiddleware cfg (mcp_request hs b) = Next"
    then show ?thesis using handler by (simp add: post_mcp_def)
  next
    assume "\<exists>m. authMiddleware cfg (mcp_request hs b) =
              Respond \<lparr>status = 401, payload = rpc_error (- 32001) m (get_prop b ''id'')\<rparr>"
    then show ?thesis by (auto simp: post_mcp_def rpc_error_def)
  qed
qed

text \<open>
  Claim C4. The claim asks that every answer to a well-formed body, the one of the
  internal-error handler included, carries the request's id. The outer \<^verbatim>\<open>catch\<close>
  answers with \<^verbatim>\<open>req.body?.id || null\<close>: the request \<open>list_request\<close>, a
  \<^verbatim>\<open>tools/list\<close> with id 0, served while a module raises during registration, is
  answered with id null.
\<close>

theorem C4_catch_all_loses_id:
  "get_prop list_request ''id'' = JNum 0 \<and>
   fst (post_mcp cfg0 failing_modules H0 (mcp_request Map.empty list_request) initial_state) =
     res_json (rpc_error (- 32603) ''Internal error: registration failed'' JNull) \<and>
   get_prop (payload (fst (post_mcp cfg0 failing_modules H0 (mcp_request Map.empty list_request)
                             initial_state))) ''id'' = JNull"
  by (simp add: post_mcp_def authMiddleware_def mcp_handler_def mcp_request_def cfg0_def
      opt_prop_def getToolDefinitions_def register_all_def failing_modules_def no_tools_def
      js_or_def Let_def list_request_def res_json_def rpc_error_def)

text \<open>
  Claim C5, as amended. A \<^verbatim>\<open>tools/call\<close> request without the
  \<^verbatim>\<open>x-smartsheet-api-key\<close> header leaves the state of the server, the client cache
  included, unchanged; and when the authentication gate lets it pass, the answer is the
  JSON-RPC error -32602.
\<close>

theorem C5_missing_api_key:
  assumes "get_prop b ''method'' = JStr ''tools/call''" and "hs ''x-smartsheet-api-key'' = None"
  shows "snd (post_mcp cfg M H (mcp_request hs b) s) = s \<and>
         (authMiddleware cfg (mcp_request hs b) = Next \<longrightarrow>
          fst (post_mcp cfg M H (mcp_request hs b) s) =
            res_json (rpc_error (- 32602) ''Missing required header: x-smartsheet-api-key''
                        (get_prop b ''id'')))"
proof -
  from assms(1) obtain fs where b: "b = JObj fs" by (auto dest: get_prop_str_obj)
  have "mcp_handler cfg M H (mcp_request hs b) s =
      (res_json (rpc_error (- 32602) ''Missing required header: x-smartsheet-api-key''
                   (get_prop b ''id'')), s)"
    using assms unfolding b mcp_handler_def mcp_request_def by (simp add: Let_def)
  then show ?thesis
    by (cases "authMiddleware cfg (mcp_request hs b)") (simp_all add: post_mcp_def)
qed

text \<open>The theorem on a server that requires no authentication.\<close>

theorem C5_witness:
  "post_mcp open_cfg no_tools H0
       (mcp_request Map.empty (JObj [(''method'', JStr ''tools/call''), (''id'', JNum 1)]))
       initial_state =
     (res_json (rpc_error (- 32602) ''Missing required header: x-smartsheet-api-key'' (JNum 1)),
      initial_state)"
  using C5_missing_api_key[of "JObj [(''method'', JStr ''tools/call''), (''id'', JNum 1)]"
      Map.empty open_cfg no_tools H0 initial_state]
  by (simp add: authMiddleware_def open_cfg_def prod_eq_iff)

text \<open>
  The claim as it was written fails when the gate answers first: with a secret configured,
  a \<^verbatim>\<open>tools/call\<close> request that carries neither header is answered 401 with error
  -32001, not with -32602.
\<close>

theorem C5_counterexample:
  "Map.empty ''x-smartsheet-api-key'' = (None :: string option) \<and>
   fst (post_mcp cfg0 no_tools H0
          (mcp_request Map.empty (JObj [(''method'', JStr ''tools/call''), (''id'', JNum 1)]))
          initial_state) =
     \<lparr>status = 401,
      payload = rpc_error (- 32001) ''Authentication required for tool execution'' (JNum 1)\<rparr>
   \<and> get_prop (get_prop (payload (fst (post_mcp cfg0 no_tools H0
          (mcp_request Map.empty (JObj [(''method'', JStr ''tools/call''), (''id'', JNum 1)]))
          initial_state))) ''error'') ''code'' \<noteq> JNum (- 32602)"
  by (simp add: post_mcp_def authMiddleware_def mcp_request_def cfg0_def opt_prop_def Let_def
      rpc_error_def)




section \<open>Tool execution\<close>





section \<open>Tool discovery\<close>

lemma recording_tool_appends:
  "recording_tool d tools = Inr tools1 \<Longrightarrow>
   \<exists>t. tools1 = tools @ [t] \<and> recording_tool d [] = Inr [t] \<and> get_prop t ''name'' = JStr (name d)"
  by (cases "input_schema_of (if handler d \<noteq> None then schemaOrHandler d else Shape (JObj []))")
     (simp_all add: recording_tool_def)

lemma record_sweep_names:
  "record_sweep steps tools = Inr tools' \<Longrightarrow>
   map (\<lambda>t. get_prop t ''name'') tools' =
     map (\<lambda>t. get_prop t ''name'') tools @ map (\<lambda>d. JStr (name d)) (registered steps)"
proof (induction steps arbitrary: tools)
  case Nil
  then show ?case by simp
next
  case (Cons x steps)
  show ?case
  proof (cases x)
    case (Raise e)
    with Cons.prems show ?thesis by simp
  next
    case (Register d)
    with Cons.prems obtain tools1 where r: "recording_tool d tools = Inr tools1"
      and rest: "record_sweep steps tools1 = Inr tools'"
      by (auto split: sum.splits)
    from recording_tool_appends[OF r]
    have "map (\<lambda>t. get_prop t ''name'') tools1 = map (\<lambda>t. get_prop t ''name'') tools @ [JStr (name d)]"
      by auto
    with Cons.IH[OF rest] Register show ?thesis by simp
  qed
qed

text \<open>
  Claim C7. Serving \<^verbatim>\<open>tools/list\<close> invokes no callback and has no other effect: the state
  of the server, with the log of invocations and the client cache, is unchanged. It is
  deterministic: the answer is the same whatever the callbacks would do, whatever the state
  of the server and whatever the other headers are, as long as the
  \<^verbatim>\<open>x-allow-delete-tools\<close> flag is the same. The names listed are those of the registered
  descriptors, in registration order.
\<close>

theorem C7_tools_list_pure:
  assumes "get_prop b ''method'' = JStr ''tools/list''"
    and "(hs1 ''x-allow-delete-tools'' = Some ''true'') = (hs2 ''x-allow-delete-tools'' = Some ''true'')"
  shows "snd (post_mcp cfg M H1 (mcp_request hs1 b) s1) = s1 \<and>
         fst (post_mcp cfg M H1 (mcp_request hs1 b) s1) = fst (post_mcp cfg M H2 (mcp_request hs2 b) s2) \<and>
         (case getToolDefinitions M allow of
            Inl e \<Rightarrow> True
          | Inr tools \<Rightarrow>
              map (\<lambda>t. get_prop t ''name'') tools =
              map (\<lambda>d. JStr (name d)) (registered (register_all M dummyApi allow)))"
proof -
  from assms(1) obtain fs where b: "b = JObj fs" by (auto dest: get_prop_str_obj)
  have auth: "authMiddleware cfg (mcp_request hs b) = Next" for hs
    using assms(1) unfolding b by (simp add: authMiddleware_def mcp_request_def opt_prop_def Let_def)
  have h: "mcp_handler cfg M H (mcp_request hs b) s =
      (case getToolDefinitions M (hs ''x-allow-delete-tools'' = Some ''true'') of
         Inr tools \<Rightarrow> (res_json (rpc_result (JObj [(''tools'', JArr tools)]) (get_prop b ''id'')), s)
       | Inl e \<Rightarrow> (res_json (rpc_error (- 32603) (''Internal error: '' @ e)
                               (js_or (get_prop b ''id'') JNull)), s))"
    for H hs s
    using assms(1) unfolding b mcp_handler_def mcp_request_def
    by (simp add: Let_def opt_prop_def split: sum.splits)
  have names: "(case getToolDefinitions M allow of
            Inl e \<Rightarrow> True
          | Inr tools \<Rightarrow>
              map (\<lambda>t. get_prop t ''name'') tools =
              map (\<lambda>d. JStr (name d)) (registered (register_all M dummyApi allow)))"
    using record_sweep_names[of "register_all M dummyApi allow" "[]"]
    by (simp add: getToolDefinitions_def split: sum.splits)
  show ?thesis
    using assms(2) names by (simp add: post_mcp_def auth h split: sum.splits)
qed

text \<open>
  The theorem at two \<^verbatim>\<open>tools/list\<close> requests: one to a fresh process, one, with another
  header, to a process with a cached client and callbacks that raise.
\<close>

theorem C7_witness:
  "snd (post_mcp cfg0 sheet_modules H0 (mcp_request Map.empty list_request) initial_state) =
     initial_state
   \<and> fst (post_mcp cfg0 sheet_modules H0 (mcp_request Map.empty list_request) initial_state) =
     fst (post_mcp cfg0 sheet_modules (\<lambda>h args. Throws ''down'')
            (mcp_request [''x-smartsheet-api-key'' \<mapsto> ''token''] list_request)
            \<lparr>apiInstances = [(''token:default'', new_api ''token'' None)], invoked = [(0, JNull)]\<rparr>)"
  using C7_tools_list_pure[of list_request Map.empty
      "[''x-smartsheet-api-key'' \<mapsto> ''token'']" cfg0 sheet_modules H0 initial_state
      "\<lambda>h args. Throws ''down''"
      "\<lparr>apiInstances = [(''token:default'', new_api ''token'' None)], invoked = [(0, JNull)]\<rparr>"]
  by (simp add: list_request_def)

subsection \<open>The projected schema\<close>








end
